theory Spec2Isabelle
  imports Complex_Main "HOL-Library.Word"
begin

unbundle bit_operations_syntax

section \<open>Shared data: bytes, errors and panics\<close>

text \<open>
  The repository is Go. A byte is an 8-bit word and a PCM sample (\<^verbatim>\<open>int16\<close>) a 16-bit
  word whose arithmetic wraps. A Go \<^verbatim>\<open>error\<close> value is an \<open>error\<close>; a run-time panic
  (index or slice bounds out of range, nil dereference, an explicit \<^verbatim>\<open>panic(...)\<close>) is a
  \<open>panic\<close>, returned as the \<open>Inl\<close> branch of a sum.
\<close>

type_synonym byte = "8 word"

type_synonym i16 = "16 word"

datatype error = ErrShortWrite | ErrNoProgress | EOF | SinkError nat

datatype arr = ArrData | ArrAi | ArrX | ArrBuf | ArrP | ArrCounts | ArrOut

datatype panic = IndexOutOfRange arr int nat | SliceBounds arr int nat | NilDereference | NoFrames | NegativeLen int

section \<open>The buffered writer of \<^verbatim>\<open>dsp/dsp.go\<close>\<close>

text \<open>
  \<^verbatim>\<open>type Writer struct { err error; buf []byte; n int; wr io.Writer; dsp DSP }\<close>.
  The underlying \<^verbatim>\<open>io.Writer\<close> and the \<^verbatim>\<open>DSP\<close> are interfaces: their
  \<^verbatim>\<open>Write\<close> and \<^verbatim>\<open>Compute\<close> methods are the parameters \<open>W\<close> (a \<open>sink\<close>) and \<open>D\<close>
  (a \<open>transform\<close>) of the model, acting on a state of their own (\<open>wr\<close>, \<open>dsp\<close>). A sink
  returns the count and error that Go's \<^verbatim>\<open>Write\<close> returns; a transform may panic. The field
  \<open>sent\<close> is the log of the blocks handed to the sink, one entry per call of \<open>W\<close>: it is how
  the model observes I/O.
\<close>

record ('s, 'd) writer =
  err :: "error option"
  buf :: "byte list"
  n :: int
  wr :: 's
  dsp :: 'd
  sent :: "byte list list"

type_synonym 's sink = "'s \<Rightarrow> byte list \<Rightarrow> (int \<times> error option) \<times> 's"
type_synonym 'd transform = "'d \<Rightarrow> byte list \<Rightarrow> panic + (byte list \<times> 'd)"

definition Available :: "('s, 'd) writer \<Rightarrow> int" where
  "Available b = int (length (buf b)) - n b"

definition Buffered :: "('s, 'd) writer \<Rightarrow> int" where
  "Buffered b = n b"

text \<open>
  \<^verbatim>\<open>xs[lo:]\<close> and \<^verbatim>\<open>xs[0:hi]\<close> panic outside \<open>0 .. len\<close> (every slice of this file has
  its capacity equal to its length); \<^verbatim>\<open>copy(dst[off:], src)\<close> copies as many elements as fit
  and returns their number.
\<close>

definition slice_from :: "arr \<Rightarrow> 'a list \<Rightarrow> int \<Rightarrow> panic + 'a list" where
  "slice_from a xs lo =
     (if 0 \<le> lo \<and> lo \<le> int (length xs) then Inr (drop (nat lo) xs)
      else Inl (SliceBounds a lo (length xs)))"

definition slice_to :: "arr \<Rightarrow> 'a list \<Rightarrow> int \<Rightarrow> panic + 'a list" where
  "slice_to a xs hi =
     (if 0 \<le> hi \<and> hi \<le> int (length xs) then Inr (take (nat hi) xs)
      else Inl (SliceBounds a hi (length xs)))"

definition copy_at :: "'a list \<Rightarrow> nat \<Rightarrow> 'a list \<Rightarrow> nat \<times> 'a list" where
  "copy_at dst off src =
     (let k = min (length dst - off) (length src)
      in (k, take off dst @ take k src @ drop (off + k) dst))"

text \<open>
  \<^verbatim>\<open>func (b *Writer) flush() error\<close>, lines 77 to 98: the sticky error first, then the empty
  buffer, then one call of the sink on the transformed buffer; a short count without an
  error becomes \<^verbatim>\<open>io.ErrShortWrite\<close>; on an error the unwritten bytes move to the front.
\<close>

definition flush :: "'s sink \<Rightarrow> 'd transform \<Rightarrow> ('s, 'd) writer \<Rightarrow> panic + (error option \<times> ('s, 'd) writer)" where
  "flush W D b =
     (case err b of
        Some e \<Rightarrow> Inr (Some e, b)
      | None \<Rightarrow>
          if n b = 0 then Inr (None, b)
          else
            (case slice_to ArrBuf (buf b) (n b) of
               Inl pn \<Rightarrow> Inl pn
             | Inr blk \<Rightarrow>
                 (case D (dsp b) blk of
                    Inl pn \<Rightarrow> Inl pn
                  | Inr (out, d') \<Rightarrow>
                      (case W (wr b) out of
                         ((k, e0), s') \<Rightarrow>
                           let b1 = b\<lparr>dsp := d', wr := s', sent := sent b @ [out]\<rparr>;
                               e1 = (if k < n b \<and> e0 = None then Some ErrShortWrite else e0)
                           in (case e1 of
                                 Some e \<Rightarrow>
                                   let b2 = (if 0 < k \<and> k < n b
                                             then b1\<lparr>buf := snd (copy_at (buf b1) 0 (drop (nat k) blk))\<rparr>
                                             else b1)
                                   in Inr (Some e, b2\<lparr>n := n b - k, err := Some e\<rparr>)
                               | None \<Rightarrow> Inr (None, b1\<lparr>n := 0\<rparr>))))))"

text \<open>
  The loop of \<^verbatim>\<open>func (b *Writer) Write(p []byte) (nn int, err error)\<close>, lines 53 to 67.
  It need not end (a sink that accepts nothing and reports no error keeps it running), so
  it is a partial function: \<open>None\<close> is a run that never returns.
\<close>

partial_function (option) Write_loop ::
  "'s sink \<Rightarrow> 'd transform \<Rightarrow> ('s, 'd) writer \<Rightarrow> byte list \<Rightarrow> int
     \<Rightarrow> (panic + (('s, 'd) writer \<times> byte list \<times> int)) option" where
  "Write_loop W D b p nn =
     (if Available b < int (length p) \<and> err b = None then
        (if Buffered b = 0 then
           (case D (dsp b) p of
              Inl pn \<Rightarrow> Some (Inl pn)
            | Inr (out, d') \<Rightarrow>
                (case W (wr b) out of
                   ((k, e0), s') \<Rightarrow>
                     (case slice_from ArrP p k of
                        Inl pn \<Rightarrow> Some (Inl pn)
                      | Inr p' \<Rightarrow>
                          Write_loop W D (b\<lparr>dsp := d', wr := s', sent := sent b @ [out], err := e0\<rparr>)
                            p' (nn + k))))
         else
           (case slice_from ArrBuf (buf b) (n b) of
              Inl pn \<Rightarrow> Some (Inl pn)
            | Inr _ \<Rightarrow>
                (case copy_at (buf b) (nat (n b)) p of
                   (k, buf') \<Rightarrow>
                     (case flush W D (b\<lparr>buf := buf', n := n b + int k\<rparr>) of
                        Inl pn \<Rightarrow> Some (Inl pn)
                      | Inr (_, b') \<Rightarrow> Write_loop W D b' (drop k p) (nn + int k)))))
      else Some (Inr (b, p, nn)))"


definition Write ::
  "'s sink \<Rightarrow> 'd transform \<Rightarrow> ('s, 'd) writer \<Rightarrow> byte list
     \<Rightarrow> (panic + ((int \<times> error option) \<times> ('s, 'd) writer)) option" where
  "Write W D b p =
     (case Write_loop W D b p 0 of
        None \<Rightarrow> None
      | Some (Inl pn) \<Rightarrow> Some (Inl pn)
      | Some (Inr (b1, p1, nn1)) \<Rightarrow>
          (case err b1 of
             Some e \<Rightarrow> Some (Inr ((nn1, Some e), b1))
           | None \<Rightarrow>
               (case slice_from ArrBuf (buf b1) (n b1) of
                  Inl pn \<Rightarrow> Some (Inl pn)
                | Inr _ \<Rightarrow>
                    (case copy_at (buf b1) (nat (n b1)) p1 of
                       (k, buf') \<Rightarrow>
                         Some (Inr ((nn1 + int k, None), b1\<lparr>buf := buf', n := n b1 + int k\<rparr>))))))"

definition Flush :: "'s sink \<Rightarrow> 'd transform \<Rightarrow> ('s, 'd) writer \<Rightarrow> panic + (error option \<times> ('s, 'd) writer)" where
  "Flush W D b = flush W D b"

text \<open>A client's calls on one \<open>Writer\<close>, run in sequence; a panic or a call that never
  returns ends the run.\<close>

datatype call = CallWrite "byte list" | CallFlush

datatype ret = RetWrite int "error option" | RetFlush "error option"

fun ret_err :: "ret \<Rightarrow> error option" where
  "ret_err (RetWrite _ e) = e"
| "ret_err (RetFlush e) = e"

fun exec :: "'s sink \<Rightarrow> 'd transform \<Rightarrow> ('s, 'd) writer \<Rightarrow> call
    \<Rightarrow> (panic + (ret \<times> ('s, 'd) writer)) option" where
  "exec W D b (CallWrite p) =
     (case Write W D b p of
        None \<Rightarrow> None
      | Some (Inl pn) \<Rightarrow> Some (Inl pn)
      | Some (Inr ((nn, e), b')) \<Rightarrow> Some (Inr (RetWrite nn e, b')))"
| "exec W D b CallFlush =
     (case Flush W D b of
        Inl pn \<Rightarrow> Some (Inl pn)
      | Inr (e, b') \<Rightarrow> Some (Inr (RetFlush e, b')))"

fun run :: "'s sink \<Rightarrow> 'd transform \<Rightarrow> ('s, 'd) writer \<Rightarrow> call list
    \<Rightarrow> (panic + (ret list \<times> ('s, 'd) writer)) option" where
  "run W D b [] = Some (Inr ([], b))"
| "run W D b (c # cs) =
     (case exec W D b c of
        None \<Rightarrow> None
      | Some (Inl pn) \<Rightarrow> Some (Inl pn)
      | Some (Inr (r, b')) \<Rightarrow>
          (case run W D b' cs of
             None \<Rightarrow> None
           | Some (Inl pn) \<Rightarrow> Some (Inl pn)
           | Some (Inr (rs, b'')) \<Rightarrow> Some (Inr (r # rs, b''))))"

fun sticky_ret :: "error \<Rightarrow> call \<Rightarrow> ret" where
  "sticky_ret e (CallWrite _) = RetWrite 0 (Some e)"
| "sticky_ret e CallFlush = RetFlush (Some e)"

text \<open>Sinks and a transform to run the model on: a sink that refuses everything, a sink
  that takes two bytes of its first block and everything afterwards, the identity transform.\<close>

definition failing_sink :: "byte list sink" where
  "failing_sink s out = ((0, Some (SinkError 5)), s)"

definition short_once_sink :: "(byte list \<times> nat) sink" where
  "short_once_sink s out =
     (case s of (got, calls) \<Rightarrow>
        if calls = 0 then ((int (min 2 (length out)), None), (got @ take 2 out, Suc calls))
        else ((int (length out), None), (got @ out, Suc calls)))"

definition id_transform :: "unit transform" where
  "id_transform d p = Inr (p, d)"

definition short_before :: "(byte list \<times> nat, unit) writer" where
  "short_before = \<lparr>err = None, buf = [1, 2, 3, 4], n = 4, wr = ([], 0), dsp = (), sent = []\<rparr>"

definition short_after :: "(byte list \<times> nat, unit) writer" where
  "short_after = \<lparr>err = Some ErrShortWrite, buf = [3, 4, 3, 4], n = 2, wr = ([1, 2], 1), dsp = (),
     sent = [[1, 2, 3, 4]]\<rparr>"

definition NewWriter :: "nat \<Rightarrow> 's \<Rightarrow> 'd \<Rightarrow> ('s, 'd) writer" where
  "NewWriter sz w d = \<lparr>err = None, buf = replicate sz 0, n = 0, wr = w, dsp = d, sent = []\<rparr>"

subsection \<open>The sticky error\<close>

lemma flush_err_set: "err b = Some e \<Longrightarrow> flush W D b = Inr (Some e, b)"
  by (simp add: flush_def)

lemma Write_loop_err_set: "err b = Some e \<Longrightarrow> Write_loop W D b p nn = Some (Inr (b, p, nn))"
  by (subst Write_loop.simps) simp

lemma Write_err_set: "err b = Some e \<Longrightarrow> Write W D b p = Some (Inr ((0, Some e), b))"
  by (simp add: Write_def Write_loop_err_set)

lemma exec_err_set: "err b = Some e \<Longrightarrow> exec W D b c = Some (Inr (sticky_ret e c, b))"
  by (cases c) (simp_all add: Write_err_set Flush_def flush_err_set)

lemma run_err_set: "err b = Some e \<Longrightarrow> run W D b cs = Some (Inr (map (sticky_ret e) cs, b))"
  by (induction cs) (simp_all add: exec_err_set)

lemma flush_returns_err:
  assumes "flush W D b = Inr (Some e, b')"
  shows "err b' = Some e"
  using assms
  by (auto simp: flush_def Let_def split: option.splits sum.splits prod.splits if_splits)

lemma Write_returns_err:
  assumes "Write W D b p = Some (Inr ((nn, Some e), b'))"
  shows "err b' = Some e"
  using assms
  by (auto simp: Write_def split: option.splits sum.splits prod.splits)

lemma exec_returns_err:
  assumes "exec W D b c = Some (Inr (r, b'))" and "ret_err r = Some e"
  shows "err b' = Some e"
proof (cases c)
  case (CallWrite p)
  with assms obtain nn where "Write W D b p = Some (Inr ((nn, Some e), b'))"
    by (auto split: option.splits sum.splits prod.splits)
  then show ?thesis by (rule Write_returns_err)
next
  case CallFlush
  with assms have "flush W D b = Inr (Some e, b')"
    by (auto simp: Flush_def split: sum.splits prod.splits)
  then show ?thesis by (rule flush_returns_err)
qed

lemma ret_err_sticky: "ret_err (sticky_ret e c) = Some e"
  by (cases c) simp_all

text \<open>
  Claim C2. Once a \<open>Write\<close> or \<open>Flush\<close> of a writer has returned the error \<open>e\<close>, every
  later sequence of calls on it returns normally, each call with \<open>e\<close> (a \<open>Write\<close> with the
  count 0), and leaves the whole writer as it was: the sink's state and the log of blocks
  sent to it do not change, so no further I/O happens.
\<close>

theorem sticky_error:
  assumes "exec W D b c = Some (Inr (r, b'))" and "ret_err r = Some e"
  shows "run W D b' cs = Some (Inr (map (sticky_ret e) cs, b'))
         \<and> list_all (\<lambda>r'. ret_err r' = Some e) (map (sticky_ret e) cs)"
proof -
  from assms have "err b' = Some e" by (rule exec_returns_err)
  then have "run W D b' cs = Some (Inr (map (sticky_ret e) cs, b'))" by (rule run_err_set)
  moreover have "list_all (\<lambda>r'. ret_err r' = Some e) (map (sticky_ret e) cs)"
    by (simp add: list_all_iff ret_err_sticky)
  ultimately show ?thesis by simp
qed

lemma failing_write:
  "exec failing_sink id_transform (NewWriter 4 [] ()) (CallWrite [1, 2, 3, 4, 5, 6])
     = Some (Inr (RetWrite 0 (Some (SinkError 5)),
         (NewWriter 4 [] ())\<lparr>sent := [[1, 2, 3, 4, 5, 6]], err := Some (SinkError 5)\<rparr>))"
proof -
  let ?b = "NewWriter 4 [] () :: (byte list, unit) writer"
  let ?b' = "?b\<lparr>dsp := (), wr := [], sent := sent ?b @ [[1, 2, 3, 4, 5, 6]], err := Some (SinkError 5)\<rparr>"
  have "Write_loop failing_sink id_transform ?b [1, 2, 3, 4, 5, 6] 0
          = Write_loop failing_sink id_transform ?b' [1, 2, 3, 4, 5, 6] 0"
    by (subst Write_loop.simps)
      (simp add: NewWriter_def Available_def Buffered_def failing_sink_def id_transform_def
        slice_from_def)
  also have "\<dots> = Some (Inr (?b', [1, 2, 3, 4, 5, 6], 0))"
    by (rule Write_loop_err_set) simp
  finally show ?thesis
    by (simp add: Write_def NewWriter_def)
qed

theorem sticky_error_witness:
  "exec failing_sink id_transform (NewWriter 4 [] ()) (CallWrite [1, 2, 3, 4, 5, 6])
     = Some (Inr (RetWrite 0 (Some (SinkError 5)),
         (NewWriter 4 [] ())\<lparr>sent := [[1, 2, 3, 4, 5, 6]], err := Some (SinkError 5)\<rparr>))
   \<and> run failing_sink id_transform
         ((NewWriter 4 [] ())\<lparr>sent := [[1, 2, 3, 4, 5, 6]], err := Some (SinkError 5)\<rparr>)
         [CallWrite [7], CallFlush, CallWrite [8, 9, 10, 11, 12]]
     = Some (Inr ([RetWrite 0 (Some (SinkError 5)), RetFlush (Some (SinkError 5)),
                   RetWrite 0 (Some (SinkError 5))],
         (NewWriter 4 [] ())\<lparr>sent := [[1, 2, 3, 4, 5, 6]], err := Some (SinkError 5)\<rparr>))"
  using sticky_error [OF failing_write, of "SinkError 5" "[CallWrite [7], CallFlush, CallWrite [8, 9, 10, 11, 12]]"]
    failing_write
  by simp

subsection \<open>A short write\<close>

lemma copy_front:
  assumes "j \<le> m" and "m \<le> length xs"
  shows "snd (copy_at xs 0 (drop j (take m xs))) = drop j (take m xs) @ drop (m - j) xs"
proof -
  have "length (drop j (take m xs)) = m - j" using assms by simp
  moreover have "min (length xs) (m - j) = m - j" using assms by simp
  ultimately show ?thesis by (simp add: copy_at_def Let_def)
qed

lemma len_rest:
  assumes "0 \<le> (k::int)" and "k < m" and "m \<le> int (length xs)"
  shows "length (drop (nat k) (take (nat m) xs)) = nat (m - k)"
  using assms by (simp add: nat_diff_distrib)

lemma flush_short:
  assumes "err b = None" and "0 < n b" and "n b \<le> int (length (buf b))"
    and "D (dsp b) (take (nat (n b)) (buf b)) = Inr (out, d')"
    and "W (wr b) out = ((k, None), s')" and "0 \<le> k" and "k < n b"
  shows "flush W D b = Inr (Some ErrShortWrite,
           b\<lparr>dsp := d', wr := s', sent := sent b @ [out],
              buf := (if 0 < k then drop (nat k) (take (nat (n b)) (buf b)) @ drop (nat (n b - k)) (buf b)
                      else buf b),
              n := n b - k, err := Some ErrShortWrite\<rparr>)"
proof -
  have d: "nat (n b - k) = nat (n b) - nat k"
    using assms(6,7) by (simp add: nat_diff_distrib)
  have s: "slice_to ArrBuf (buf b) (n b) = Inr (take (nat (n b)) (buf b))"
    using assms(2,3) by (simp add: slice_to_def)
  have "snd (copy_at (buf b) 0 (drop (nat k) (take (nat (n b)) (buf b))))
             = drop (nat k) (take (nat (n b)) (buf b)) @ drop (nat (n b) - nat k) (buf b)"
    using assms(3,6,7) by (intro copy_front) simp_all
  then have c: "snd (copy_at (buf b) 0 (drop (nat k) (take (nat (n b)) (buf b))))
             = drop (nat k) (take (nat (n b)) (buf b)) @ drop (nat (n b - k)) (buf b)"
    by (simp only: d)
  show ?thesis
    using assms(1,2,4,5,7) s c by (simp add: flush_def)
qed

text \<open>
  Claim C3, as the code has it. When a flush of \<open>n\<close> buffered bytes meets a sink that takes
  \<open>k < n\<close> bytes and reports no error, the flush returns \<^verbatim>\<open>io.ErrShortWrite\<close>, the sink
  was called once, \<open>n - k\<close> bytes stay buffered and they are the original bytes
  \<open>k .. n\<close>, at the front of the buffer. The error is recorded in the writer, so every
  later sequence of \<open>Write\<close> and \<open>Flush\<close> calls returns it and leaves the writer and the
  sink untouched: the kept bytes are not sent again.
\<close>

theorem short_write_kept:
  assumes "err b = None" and "0 < n b" and "n b \<le> int (length (buf b))"
    and "D (dsp b) (take (nat (n b)) (buf b)) = Inr (out, d')"
    and "W (wr b) out = ((k, None), s')" and "0 \<le> k" and "k < n b"
  shows "\<exists>b'. flush W D b = Inr (Some ErrShortWrite, b')
           \<and> n b' = n b - k
           \<and> take (nat (n b')) (buf b') = drop (nat k) (take (nat (n b)) (buf b))
           \<and> sent b' = sent b @ [out]
           \<and> run W D b' cs = Some (Inr (map (sticky_ret ErrShortWrite) cs, b'))"
proof -
  let ?b' = "b\<lparr>dsp := d', wr := s', sent := sent b @ [out],
              buf := (if 0 < k then drop (nat k) (take (nat (n b)) (buf b)) @ drop (nat (n b - k)) (buf b)
                      else buf b),
              n := n b - k, err := Some ErrShortWrite\<rparr>"
  have f: "flush W D b = Inr (Some ErrShortWrite, ?b')"
    using assms by (rule flush_short)
  have len: "length (drop (nat k) (take (nat (n b)) (buf b))) = nat (n b - k)"
    using assms(6,7,3) by (rule len_rest)
  have front: "take (nat (n ?b')) (buf ?b') = drop (nat k) (take (nat (n b)) (buf b))"
  proof (cases "0 < k")
    case True
    then show ?thesis using len by simp
  next
    case False
    with assms(6) have "k = 0" by simp
    then show ?thesis by simp
  qed
  have "err ?b' = Some ErrShortWrite" by simp
  then have r: "run W D ?b' cs = Some (Inr (map (sticky_ret ErrShortWrite) cs, ?b'))"
    by (rule run_err_set)
  from f front r show ?thesis
    by (intro exI [of _ ?b']) simp
qed

theorem short_write_kept_witness:
  "err short_before = None \<and> n short_before = 4
   \<and> short_once_sink (wr short_before) [1, 2, 3, 4] = ((2, None), ([1, 2], 1))
   \<and> (\<exists>b'. flush short_once_sink id_transform short_before = Inr (Some ErrShortWrite, b')
          \<and> n b' = 2 \<and> take 2 (buf b') = [3, 4] \<and> sent b' = [[1, 2, 3, 4]]
          \<and> run short_once_sink id_transform b' [CallFlush, CallWrite [9]]
              = Some (Inr ([RetFlush (Some ErrShortWrite), RetWrite 0 (Some ErrShortWrite)], b')))"
proof -
  have h1: "err short_before = None" and h2: "0 < n short_before"
    and h3: "n short_before \<le> int (length (buf short_before))"
    and h4: "id_transform (dsp short_before) (take (nat (n short_before)) (buf short_before))
               = Inr ([1, 2, 3, 4], ())"
    and h5: "short_once_sink (wr short_before) [1, 2, 3, 4] = ((2, None), ([1, 2], 1))"
    and h6: "(0::int) \<le> 2" and h7: "2 < n short_before"
    by (simp_all add: short_before_def short_once_sink_def id_transform_def)
  from short_write_kept [of short_before id_transform "[1, 2, 3, 4]" "()" short_once_sink 2
      "([1, 2], 1)" "[CallFlush, CallWrite [9]]", OF h1 h2 h3 h4 h5 h6 h7]
  obtain b' where b: "flush short_once_sink id_transform short_before = Inr (Some ErrShortWrite, b')"
      "n b' = n short_before - 2"
      "take (nat (n b')) (buf b') = drop (nat 2) (take (nat (n short_before)) (buf short_before))"
      "sent b' = sent short_before @ [[1, 2, 3, 4]]"
      "run short_once_sink id_transform b' [CallFlush, CallWrite [9]]
         = Some (Inr (map (sticky_ret ErrShortWrite) [CallFlush, CallWrite [9]], b'))"
    by blast
  from b(2) have n2: "n b' = 2" by (simp add: short_before_def)
  from b(3) n2 have t: "take 2 (buf b') = [3, 4]" by (simp add: short_before_def)
  from b(4) have s: "sent b' = [[1, 2, 3, 4]]" by (simp add: short_before_def)
  from b(5) have r: "run short_once_sink id_transform b' [CallFlush, CallWrite [9]]
              = Some (Inr ([RetFlush (Some ErrShortWrite), RetWrite 0 (Some ErrShortWrite)], b'))"
    by simp
  have "\<exists>b'. flush short_once_sink id_transform short_before = Inr (Some ErrShortWrite, b')
          \<and> n b' = 2 \<and> take 2 (buf b') = [3, 4] \<and> sent b' = [[1, 2, 3, 4]]
          \<and> run short_once_sink id_transform b' [CallFlush, CallWrite [9]]
              = Some (Inr ([RetFlush (Some ErrShortWrite), RetWrite 0 (Some ErrShortWrite)], b'))"
    using b(1) n2 t s r by blast
  with h1 h5 show ?thesis by (simp add: short_before_def)
qed

text \<open>
  Claim C3 as the specification words it promises that the kept bytes appear in the next
  successful flush. On the four buffered bytes 1, 2, 3, 4 and a sink that takes two bytes
  of its first block and everything afterwards, the flush returns the short-write error and
  keeps 3, 4; the following \<open>Flush\<close>, \<open>Write\<close> and \<open>Flush\<close> all return that error, the sink
  is not called again and has received 1, 2 only.
\<close>

theorem short_write_not_resent:
  "flush short_once_sink id_transform short_before = Inr (Some ErrShortWrite, short_after)
   \<and> run short_once_sink id_transform short_after [CallFlush, CallWrite [9], CallFlush]
       = Some (Inr ([RetFlush (Some ErrShortWrite), RetWrite 0 (Some ErrShortWrite),
                     RetFlush (Some ErrShortWrite)], short_after))
   \<and> take (nat (n short_after)) (buf short_after) = [3, 4]
   \<and> fst (wr short_after) = [1, 2]
   \<and> sent short_after = [[1, 2, 3, 4]]"
proof -
  have "flush short_once_sink id_transform short_before = Inr (Some ErrShortWrite, short_after)"
    by (simp add: flush_def short_before_def short_after_def short_once_sink_def id_transform_def
        slice_to_def copy_at_def)
  moreover have "run short_once_sink id_transform short_after [CallFlush, CallWrite [9], CallFlush]
       = Some (Inr (map (sticky_ret ErrShortWrite) [CallFlush, CallWrite [9], CallFlush], short_after))"
    by (rule run_err_set) (simp add: short_after_def)
  ultimately show ?thesis
    by (simp add: short_after_def)
qed

end
